theory Spec2Isabelle
  imports Complex_Main
begin

section \<open>HAR cleaner: the URL classifier\<close>

text \<open>
  The development follows \<^verbatim>\<open>har_cleaner.py\<close>. A Python \<^verbatim>\<open>str\<close> is modelled as
  a \<^typ>\<open>string\<close>: a list of characters with code points below 256, whose length is the
  number of characters. Every pattern of the classifier is plain ASCII, and inside this
  range an ASCII letter equals, ignoring case, only its own upper and lower form, so
  \<^verbatim>\<open>re.IGNORECASE\<close> is the comparison of ASCII-lowered characters.
\<close>

subsection \<open>The fragment of \<^verbatim>\<open>re\<close> the patterns use\<close>

text \<open>
  The twenty patterns of the source are built from four things only: a literal character
  (an escaped dot \<^verbatim>\<open>\.\<close> is the literal dot), the greedy \<^verbatim>\<open>.*\<close>, and the
  anchor \<^verbatim>\<open>$\<close> at the end. Without \<^verbatim>\<open>re.DOTALL\<close> the dot matches every character
  but the newline; without \<^verbatim>\<open>re.MULTILINE\<close> the anchor matches at the end of the
  text and just before a newline that ends the text.
\<close>

datatype rx = Lit char | AnyStar | Eol

definition lower_ch :: "char \<Rightarrow> char" where
  "lower_ch c =
     (case map_of (zip ''ABCDEFGHIJKLMNOPQRSTUVWXYZ'' ''abcdefghijklmnopqrstuvwxyz'') c of
        Some l \<Rightarrow> l
      | None \<Rightarrow> c)"

text \<open>\<open>match_here p s\<close>: the pattern matches a prefix of \<open>s\<close> (\<^verbatim>\<open>re.match\<close>).\<close>

fun match_here :: "rx list \<Rightarrow> string \<Rightarrow> bool" where
  "match_here [] s = True"
| "match_here (Lit c # p) [] = False"
| "match_here (Lit c # p) (x # xs) = (lower_ch x = lower_ch c \<and> match_here p xs)"
| "match_here (AnyStar # p) [] = match_here p []"
| "match_here (AnyStar # p) (x # xs) =
     (match_here p (x # xs) \<or> (x \<noteq> CHR 0x0A \<and> match_here (AnyStar # p) xs))"
| "match_here (Eol # p) s = ((s = [] \<or> s = [CHR 0x0A]) \<and> match_here p s)"

text \<open>\<open>re_search p s\<close>: \<^verbatim>\<open>re.search(p, s, re.IGNORECASE)\<close> finds a match, at any position.\<close>

fun re_search :: "rx list \<Rightarrow> string \<Rightarrow> bool" where
  "re_search p [] = match_here p []"
| "re_search p (x # xs) = (match_here p (x # xs) \<or> re_search p xs)"

definition lit :: "string \<Rightarrow> rx list" where
  "lit s = map Lit s"

subsection \<open>\<^verbatim>\<open>is_interesting_url\<close>\<close>

text \<open>
  The pattern lists, in the order of the source:
  \<^verbatim>\<open>rtm-mcp-server\.vcto-6e7\.workers\.dev\<close>, \<^verbatim>\<open>anthropic\.com\<close>, \<^verbatim>\<open>/api/.*/chat\<close>,
  \<^verbatim>\<open>/api/.*/mcp/\<close>, \<^verbatim>\<open>wss://.*mcp\<close>; and
  \<^verbatim>\<open>\.js$\<close>, \<^verbatim>\<open>\.css$\<close>, \<^verbatim>\<open>\.png$\<close>, \<^verbatim>\<open>\.jpg$\<close>, \<^verbatim>\<open>\.ico$\<close>, \<^verbatim>\<open>/_next/\<close>,
  \<^verbatim>\<open>/static/\<close>, \<^verbatim>\<open>/assets/\<close>, \<^verbatim>\<open>intercom\.io\<close>, \<^verbatim>\<open>amplitude\.com\<close>, \<^verbatim>\<open>google\<close>,
  \<^verbatim>\<open>gtag\<close>, \<^verbatim>\<open>fonts\.googleapis\.com\<close>, \<^verbatim>\<open>wix\<close>, \<^verbatim>\<open>SearchWix\<close>.
\<close>

definition interesting_patterns :: "rx list list" where
  "interesting_patterns =
     [lit ''rtm-mcp-server.vcto-6e7.workers.dev'',
      lit ''anthropic.com'',
      lit ''/api/'' @ [AnyStar] @ lit ''/chat'',
      lit ''/api/'' @ [AnyStar] @ lit ''/mcp/'',
      lit ''wss://'' @ [AnyStar] @ lit ''mcp'']"

definition noise_patterns :: "rx list list" where
  "noise_patterns =
     [lit ''.js'' @ [Eol], lit ''.css'' @ [Eol], lit ''.png'' @ [Eol], lit ''.jpg'' @ [Eol],
      lit ''.ico'' @ [Eol],
      lit ''/_next/'', lit ''/static/'', lit ''/assets/'',
      lit ''intercom.io'', lit ''amplitude.com'', lit ''google'', lit ''gtag'',
      lit ''fonts.googleapis.com'', lit ''wix'', lit ''SearchWix'']"

text \<open>
  Both loops of the source have the shape
  \<^verbatim>\<open>for pattern in patterns: if re.search(pattern, url, re.IGNORECASE): return ...\<close>;
  \<open>first_match\<close> is True when the loop takes its \<^verbatim>\<open>return\<close>.
\<close>

fun first_match :: "rx list list \<Rightarrow> string \<Rightarrow> bool" where
  "first_match [] url = False"
| "first_match (pattern # patterns) url =
     (if re_search pattern url then True else first_match patterns url)"

definition is_interesting_url :: "string \<Rightarrow> bool" where
  "is_interesting_url url =
     (if first_match noise_patterns url then False
      else if first_match interesting_patterns url then True
      else False)"

section \<open>JSON values and the Python operations applied to them\<close>

text \<open>
  \<^verbatim>\<open>json.load\<close> returns \<^verbatim>\<open>None\<close>, a \<^verbatim>\<open>bool\<close>, an \<^verbatim>\<open>int\<close>, a \<^verbatim>\<open>float\<close>,
  a \<^verbatim>\<open>str\<close>, a \<^verbatim>\<open>list\<close> or a \<^verbatim>\<open>dict\<close> with \<^verbatim>\<open>str\<close> keys. An entry is
  typed \<^verbatim>\<open>Dict[str, Any]\<close> in the source, so every field can hold any of them. A
  \<^verbatim>\<open>dict\<close> is the association list of its items in insertion order, each key once
  (\<^verbatim>\<open>json.load\<close> keeps one value per key). A finite \<^verbatim>\<open>float\<close> \<open>m * 2 ^ e\<close> is
  \<open>JFloat m e\<close>; the program only carries such a value along and tests it for zero.
\<close>

datatype json =
    JNull
  | JBool bool
  | JInt int
  | JFloat int int
  | JStr string
  | JArr "json list"
  | JObj "(string \<times> json) list"

datatype py_exception =
    KeyError
  | TypeError
  | AttributeError
  | ZeroDivisionError
  | JSONDecodeError
  | ValueError
  | RecursionError
  | FileNotFoundError
  | OSError
  | UnicodeEncodeError

type_synonym 'a result = "py_exception + 'a"

text \<open>\<^verbatim>\<open>obj[key]\<close> with a \<^verbatim>\<open>str\<close> key: only a \<^verbatim>\<open>dict\<close> can be subscripted by it.\<close>

fun py_getitem :: "json \<Rightarrow> string \<Rightarrow> json result" where
  "py_getitem (JObj kvs) key = (case map_of kvs key of Some v \<Rightarrow> Inr v | None \<Rightarrow> Inl KeyError)"
| "py_getitem _ key = Inl TypeError"

text \<open>\<^verbatim>\<open>sub in s\<close> for two \<^verbatim>\<open>str\<close>: \<open>sub\<close> occurs in \<open>s\<close>.\<close>

fun str_prefix :: "string \<Rightarrow> string \<Rightarrow> bool" where
  "str_prefix [] s = True"
| "str_prefix (c # cs) [] = False"
| "str_prefix (c # cs) (x # xs) = (c = x \<and> str_prefix cs xs)"

fun str_contains :: "string \<Rightarrow> string \<Rightarrow> bool" where
  "str_contains sub [] = str_prefix sub []"
| "str_contains sub (x # xs) = (str_prefix sub (x # xs) \<or> str_contains sub xs)"

text \<open>
  \<^verbatim>\<open>key in obj\<close> with a \<^verbatim>\<open>str\<close> key: a key of a \<^verbatim>\<open>dict\<close>, an element of a
  \<^verbatim>\<open>list\<close>, a substring of a \<^verbatim>\<open>str\<close>; the other values are not iterable.
\<close>

fun py_contains :: "string \<Rightarrow> json \<Rightarrow> bool result" where
  "py_contains key (JObj kvs) = Inr (map_of kvs key \<noteq> None)"
| "py_contains key (JArr xs) = Inr (List.member xs (JStr key))"
| "py_contains key (JStr s) = Inr (str_contains key s)"
| "py_contains key _ = Inl TypeError"

text \<open>\<^verbatim>\<open>for x in obj\<close>: the elements of a \<^verbatim>\<open>list\<close>, the keys of a \<^verbatim>\<open>dict\<close>, the
  characters of a \<^verbatim>\<open>str\<close>.\<close>

fun py_iter :: "json \<Rightarrow> json list result" where
  "py_iter (JArr xs) = Inr xs"
| "py_iter (JObj kvs) = Inr (map (\<lambda>kv. JStr (fst kv)) kvs)"
| "py_iter (JStr s) = Inr (map (\<lambda>c. JStr [c]) s)"
| "py_iter _ = Inl TypeError"

fun py_len :: "json \<Rightarrow> nat result" where
  "py_len (JArr xs) = Inr (length xs)"
| "py_len (JObj kvs) = Inr (length kvs)"
| "py_len (JStr s) = Inr (length s)"
| "py_len _ = Inl TypeError"

text \<open>The truth value of \<^verbatim>\<open>if obj:\<close>.\<close>

fun py_truthy :: "json \<Rightarrow> bool" where
  "py_truthy JNull = False"
| "py_truthy (JBool b) = b"
| "py_truthy (JInt i) = (i \<noteq> 0)"
| "py_truthy (JFloat m e) = (m \<noteq> 0)"
| "py_truthy (JStr s) = (s \<noteq> [])"
| "py_truthy (JArr xs) = (xs \<noteq> [])"
| "py_truthy (JObj kvs) = (kvs \<noteq> [])"

text \<open>\<^verbatim>\<open>obj.get(key, default)\<close>: a method of \<^verbatim>\<open>dict\<close> only.\<close>

fun py_get :: "json \<Rightarrow> string \<Rightarrow> json \<Rightarrow> json result" where
  "py_get (JObj kvs) key dflt = (case map_of kvs key of Some v \<Rightarrow> Inr v | None \<Rightarrow> Inr dflt)"
| "py_get _ key dflt = Inl AttributeError"

text \<open>
  \<^verbatim>\<open>json.loads\<close> belongs to the standard library, not to this program. The decoder of
  text is a parameter \<open>loads\<close> of the model, with every outcome the library has on a
  text \<open>s\<close>: \<open>loads s = Inr v\<close> with the decoded value, \<open>loads s = Inl JSONDecodeError\<close>
  when \<open>s\<close> is not valid JSON, and \<open>loads s = Inl e\<close> for another exception \<open>e\<close>
  (\<^verbatim>\<open>ValueError\<close> on an integer literal of more than 4300 digits,
  \<^verbatim>\<open>RecursionError\<close> on deep nesting). Every theorem below holds for every decoder.
  Called on anything but text, \<^verbatim>\<open>json.loads\<close> raises \<^verbatim>\<open>TypeError\<close> (a decoded
  document holds no bytes).
\<close>

type_synonym decoder = "string \<Rightarrow> json result"

fun json_loads :: "decoder \<Rightarrow> json \<Rightarrow> json result" where
  "json_loads loads (JStr s) = loads s"
| "json_loads loads _ = Inl TypeError"

section \<open>\<^verbatim>\<open>extract_interesting_content\<close>\<close>

text \<open>
  The dictionaries the function builds have fixed keys, so they are records; an optional
  key is an \<^typ>\<open>'a option\<close> field, \<open>None\<close> when the key is absent (a key holding
  \<^verbatim>\<open>None\<close> is \<open>Some JNull\<close>).
\<close>

record ws_message =
  msg_type :: json
  msg_time :: json
  msg_data :: json

record cleaned_entry =
  url :: json
  http_method :: json
  status :: json
  startedDateTime :: json
  requestBody :: "json option"
  responseBody :: "json option"
  webSocketMessages :: "ws_message list option"

text \<open>Lines 40 to 45: the four fields that every entry must have.\<close>

definition required_fields :: "json \<Rightarrow> cleaned_entry result" where
  "required_fields entry =
     (case py_getitem entry ''request'' of Inl e \<Rightarrow> Inl e | Inr request \<Rightarrow>
     (case py_getitem request ''url'' of Inl e \<Rightarrow> Inl e | Inr u \<Rightarrow>
     (case py_getitem request ''method'' of Inl e \<Rightarrow> Inl e | Inr m \<Rightarrow>
     (case py_getitem entry ''response'' of Inl e \<Rightarrow> Inl e | Inr response \<Rightarrow>
     (case py_getitem response ''status'' of Inl e \<Rightarrow> Inl e | Inr st \<Rightarrow>
     (case py_getitem entry ''startedDateTime'' of Inl e \<Rightarrow> Inl e | Inr t \<Rightarrow>
        Inr \<lparr>url = u, http_method = m, status = st, startedDateTime = t,
             requestBody = None, responseBody = None, webSocketMessages = None\<rparr>))))))"

text \<open>
  Lines 48 to 53. The \<^verbatim>\<open>and\<close> evaluates its right operand only when the left one is
  true; the \<^verbatim>\<open>except\<close> catches \<^verbatim>\<open>json.JSONDecodeError\<close> and nothing else.
\<close>

definition store_request_body :: "decoder \<Rightarrow> json \<Rightarrow> cleaned_entry \<Rightarrow> cleaned_entry result" where
  "store_request_body loads text cleaned =
     (case json_loads loads text of
        Inr post_data \<Rightarrow> Inr (cleaned\<lparr>requestBody := Some post_data\<rparr>)
      | Inl JSONDecodeError \<Rightarrow> Inr (cleaned\<lparr>requestBody := Some text\<rparr>)
      | Inl e \<Rightarrow> Inl e)"

definition add_request_body :: "decoder \<Rightarrow> json \<Rightarrow> cleaned_entry \<Rightarrow> cleaned_entry result" where
  "add_request_body loads entry cleaned =
     (case py_getitem entry ''request'' of Inl e \<Rightarrow> Inl e | Inr request \<Rightarrow>
     (case py_contains ''postData'' request of Inl e \<Rightarrow> Inl e | Inr has_postData \<Rightarrow>
        if \<not> has_postData then Inr cleaned else
     (case py_getitem request ''postData'' of Inl e \<Rightarrow> Inl e | Inr postData \<Rightarrow>
     (case py_contains ''text'' postData of Inl e \<Rightarrow> Inl e | Inr has_text \<Rightarrow>
        if \<not> has_text then Inr cleaned else
     (case py_getitem postData ''text'' of Inl e \<Rightarrow> Inl e | Inr text \<Rightarrow>
        store_request_body loads text cleaned)))))"

text \<open>
  Lines 56 to 65. \<^verbatim>\<open>len(response_text)\<close> is reached only after
  \<^verbatim>\<open>json.loads\<close> has raised \<^verbatim>\<open>JSONDecodeError\<close>, that is on text.
\<close>

definition store_response_body :: "decoder \<Rightarrow> json \<Rightarrow> cleaned_entry \<Rightarrow> cleaned_entry result" where
  "store_response_body loads response_text cleaned =
     (if py_truthy response_text then
        (case json_loads loads response_text of
           Inr response_data \<Rightarrow> Inr (cleaned\<lparr>responseBody := Some response_data\<rparr>)
         | Inl JSONDecodeError \<Rightarrow>
             (case py_len response_text of Inl e \<Rightarrow> Inl e | Inr n \<Rightarrow>
                if n < 10000 then Inr (cleaned\<lparr>responseBody := Some response_text\<rparr>)
                else Inr cleaned)
         | Inl e \<Rightarrow> Inl e)
      else Inr cleaned)"

definition add_response_body :: "decoder \<Rightarrow> json \<Rightarrow> cleaned_entry \<Rightarrow> cleaned_entry result" where
  "add_response_body loads entry cleaned =
     (case py_getitem entry ''response'' of Inl e \<Rightarrow> Inl e | Inr response \<Rightarrow>
     (case py_contains ''content'' response of Inl e \<Rightarrow> Inl e | Inr has_content \<Rightarrow>
        if \<not> has_content then Inr cleaned else
     (case py_getitem response ''content'' of Inl e \<Rightarrow> Inl e | Inr content \<Rightarrow>
     (case py_contains ''text'' content of Inl e \<Rightarrow> Inl e | Inr has_text \<Rightarrow>
        if \<not> has_text then Inr cleaned else
     (case py_getitem content ''text'' of Inl e \<Rightarrow> Inl e | Inr response_text \<Rightarrow>
        store_response_body loads response_text cleaned)))))"

text \<open>
  Lines 70 to 84, the loop over the messages; \<open>messages\<close> is the list built so far. The
  test \<^verbatim>\<open>'data' in msg\<close> and the subscript \<^verbatim>\<open>msg['data']\<close> stand inside the
  \<^verbatim>\<open>try\<close>, whose handler catches \<^verbatim>\<open>JSONDecodeError\<close> only. \<open>ws_record msg d\<close> is
  the dictionary \<^verbatim>\<open>{'type': msg.get('type', 'unknown'), 'time': msg.get('time', ''), 'data': d}\<close>.
\<close>

definition ws_record :: "json \<Rightarrow> json \<Rightarrow> ws_message result" where
  "ws_record msg d =
     (case py_get msg ''type'' (JStr ''unknown'') of Inl e \<Rightarrow> Inl e | Inr ty \<Rightarrow>
     (case py_get msg ''time'' (JStr []) of Inl e \<Rightarrow> Inl e | Inr tm \<Rightarrow>
        Inr \<lparr>msg_type = ty, msg_time = tm, msg_data = d\<rparr>))"

text \<open>One turn of the loop body: the message to append, if any.\<close>

definition ws_step :: "decoder \<Rightarrow> json \<Rightarrow> ws_message option result" where
  "ws_step loads msg =
     (case py_contains ''data'' msg of Inl e \<Rightarrow> Inl e | Inr has_data \<Rightarrow>
        if \<not> has_data then Inr None else
     (case py_getitem msg ''data'' of Inl e \<Rightarrow> Inl e | Inr d \<Rightarrow>
     (case json_loads loads d of
        Inr data \<Rightarrow> map_sum id Some (ws_record msg data)
      | Inl JSONDecodeError \<Rightarrow>
          (case py_get msg ''data'' (JStr []) of Inl e \<Rightarrow> Inl e | Inr raw \<Rightarrow>
             map_sum id Some (ws_record msg raw))
      | Inl e \<Rightarrow> Inl e)))"

fun ws_loop :: "decoder \<Rightarrow> json list \<Rightarrow> ws_message list \<Rightarrow> ws_message list result" where
  "ws_loop loads [] messages = Inr messages"
| "ws_loop loads (msg # rest) messages =
     (case ws_step loads msg of
        Inl e \<Rightarrow> Inl e
      | Inr None \<Rightarrow> ws_loop loads rest messages
      | Inr (Some m) \<Rightarrow> ws_loop loads rest (messages @ [m]))"

text \<open>Lines 68 to 87. Here \<open>entry\<close> has been subscripted already, so it is a \<^verbatim>\<open>dict\<close>.\<close>

definition add_websocket_messages :: "decoder \<Rightarrow> json \<Rightarrow> cleaned_entry \<Rightarrow> cleaned_entry result" where
  "add_websocket_messages loads entry cleaned =
     (case py_contains ''_webSocketMessages'' entry of Inl e \<Rightarrow> Inl e | Inr has_ws \<Rightarrow>
        if \<not> has_ws then Inr cleaned else
     (case py_getitem entry ''_webSocketMessages'' of Inl e \<Rightarrow> Inl e | Inr ws \<Rightarrow>
     (case py_iter ws of Inl e \<Rightarrow> Inl e | Inr msgs \<Rightarrow>
     (case ws_loop loads msgs [] of Inl e \<Rightarrow> Inl e | Inr messages \<Rightarrow>
        if messages \<noteq> [] then Inr (cleaned\<lparr>webSocketMessages := Some messages\<rparr>)
        else Inr cleaned))))"

definition extract_interesting_content :: "decoder \<Rightarrow> json \<Rightarrow> cleaned_entry result" where
  "extract_interesting_content loads entry =
     (case required_fields entry of Inl e \<Rightarrow> Inl e | Inr c0 \<Rightarrow>
     (case add_request_body loads entry c0 of Inl e \<Rightarrow> Inl e | Inr c1 \<Rightarrow>
     (case add_response_body loads entry c1 of Inl e \<Rightarrow> Inl e | Inr c2 \<Rightarrow>
        add_websocket_messages loads entry c2)))"

section \<open>\<^verbatim>\<open>clean_har_file\<close>\<close>

subsection \<open>The loop over the entries\<close>

text \<open>
  Lines 98 to 103: one turn of the loop gives the cleaned entry to append, if any.
  \<^verbatim>\<open>re.search\<close> raises \<^verbatim>\<open>TypeError\<close> on a URL that is not text.
\<close>

definition clean_step :: "decoder \<Rightarrow> json \<Rightarrow> cleaned_entry option result" where
  "clean_step loads entry =
     (case py_getitem entry ''request'' of Inl e \<Rightarrow> Inl e | Inr request \<Rightarrow>
     (case py_getitem request ''url'' of Inl e \<Rightarrow> Inl e | Inr u \<Rightarrow>
     (case u of
        JStr s \<Rightarrow>
          if is_interesting_url s
          then map_sum id Some (extract_interesting_content loads entry)
          else Inr None
      | _ \<Rightarrow> Inl TypeError)))"

fun clean_loop :: "decoder \<Rightarrow> json list \<Rightarrow> cleaned_entry list \<Rightarrow> cleaned_entry list result" where
  "clean_loop loads [] cleaned_entries = Inr cleaned_entries"
| "clean_loop loads (entry # rest) cleaned_entries =
     (case clean_step loads entry of
        Inl e \<Rightarrow> Inl e
      | Inr None \<Rightarrow> clean_loop loads rest cleaned_entries
      | Inr (Some c) \<Rightarrow> clean_loop loads rest (cleaned_entries @ [c]))"

subsection \<open>The reduction ratio\<close>

text \<open>
  Line 114 computes \<^verbatim>\<open>f"{(1 - kept / original) * 100:.1f}%"\<close> in binary floating point.
  A finite \<^verbatim>\<open>float\<close> is a rational number, carried here as a fraction \<open>(a, b)\<close> of
  integers with \<open>0 < b\<close>. Each operation of IEEE 754 (and the division of two \<^verbatim>\<open>int\<close>)
  returns the exact result rounded to 53 significant bits, ties to the even significand;
  \<^verbatim>\<open>.1f\<close> prints the exact value of the \<^verbatim>\<open>float\<close> rounded to one decimal, ties to
  the even digit. The exponent range is not modelled: the operands are lengths of lists,
  far from overflow and from the subnormal numbers.
\<close>

type_synonym fraction = "int \<times> int"

text \<open>\<open>round_half_even a b\<close>: the integer nearest to \<open>a / b\<close>, for \<open>0 < b\<close>.\<close>

definition round_half_even :: "int \<Rightarrow> int \<Rightarrow> int" where
  "round_half_even a b =
     (let q = a div b; r = a mod b in
      if 2 * r < b then q
      else if b < 2 * r then q + 1
      else if even q then q else q + 1)"

text \<open>\<open>bit_length a\<close>: the number of binary digits of \<open>a\<close> (\<^verbatim>\<open>int.bit_length\<close>).\<close>

function bit_length :: "int \<Rightarrow> nat" where
  "bit_length a = (if a \<le> 0 then 0 else Suc (bit_length (a div 2)))"
  by pat_completeness auto
termination
  by (relation "measure nat") auto

text \<open>\<open>binary_exponent a b\<close>: the integer \<open>x\<close> with \<open>2 ^ x \<le> a / b < 2 ^ (x + 1)\<close>, for
  positive \<open>a\<close> and \<open>b\<close>.\<close>

definition binary_exponent :: "int \<Rightarrow> int \<Rightarrow> int" where
  "binary_exponent a b =
     (let d = int (bit_length a) - int (bit_length b) in
      if (if 0 \<le> d then b * 2 ^ nat d \<le> a else b \<le> a * 2 ^ nat (- d)) then d else d - 1)"

definition round_positive :: "int \<Rightarrow> int \<Rightarrow> fraction" where
  "round_positive a b =
     (let e = binary_exponent a b - 52 in
      if 0 \<le> e then (round_half_even a (b * 2 ^ nat e) * 2 ^ nat e, 1)
      else (round_half_even (a * 2 ^ nat (- e)) b, 2 ^ nat (- e)))"

text \<open>\<open>to_double a b\<close>: the \<^verbatim>\<open>float\<close> nearest to \<open>a / b\<close>, for \<open>0 < b\<close>.\<close>

definition to_double :: "int \<Rightarrow> int \<Rightarrow> fraction" where
  "to_double a b =
     (if a = 0 then (0, 1)
      else if a < 0 then (case round_positive (- a) b of (m, d) \<Rightarrow> (- m, d))
      else round_positive a b)"

definition float_of_int :: "int \<Rightarrow> fraction" where
  "float_of_int i = (i, 1)"

definition float_sub :: "fraction \<Rightarrow> fraction \<Rightarrow> fraction" where
  "float_sub x y = (case x of (a, b) \<Rightarrow> case y of (c, d) \<Rightarrow> to_double (a * d - c * b) (b * d))"

definition float_mul :: "fraction \<Rightarrow> fraction \<Rightarrow> fraction" where
  "float_mul x y = (case x of (a, b) \<Rightarrow> case y of (c, d) \<Rightarrow> to_double (a * c) (b * d))"

text \<open>The decimal digits of a natural number, held as an \<^typ>\<open>int\<close>.\<close>

function show_int :: "int \<Rightarrow> string" where
  "show_int n =
     (if n < 10 then [''0123456789'' ! nat n]
      else show_int (n div 10) @ [''0123456789'' ! nat (n mod 10)])"
  by pat_completeness auto
termination
  by (relation "measure nat") auto

definition format_1f :: "fraction \<Rightarrow> string" where
  "format_1f x =
     (case x of (a, b) \<Rightarrow>
        let t = round_half_even (10 * \<bar>a\<bar>) b in
        (if a < 0 then ''-'' else []) @ show_int (t div 10) @ ''.'' @ show_int (t mod 10))"

text \<open>The value \<^verbatim>\<open>(1 - kept / original) * 100\<close>, for \<open>original \<noteq> 0\<close>.\<close>

definition ratio_value :: "nat \<Rightarrow> nat \<Rightarrow> fraction" where
  "ratio_value kept original =
     float_mul (float_sub (float_of_int 1) (to_double (int kept) (int original)))
       (float_of_int 100)"

definition ratio_text :: "nat \<Rightarrow> nat \<Rightarrow> string result" where
  "ratio_text kept original =
     (if original = 0 then Inl ZeroDivisionError
      else Inr (format_1f (ratio_value kept original) @ ''%''))"

subsection \<open>The report and the files\<close>

record har_summary =
  total_entries :: nat
  original_entries :: nat
  reduction_ratio :: string

record har_report =
  version :: string
  creator :: string
  description :: string
  entries :: "cleaned_entry list"
  summary :: har_summary

text \<open>Lines 96 to 116, from the decoded document to the dictionary \<^verbatim>\<open>cleaned_har\<close>.\<close>

definition build_cleaned_har :: "decoder \<Rightarrow> json \<Rightarrow> har_report result" where
  "build_cleaned_har loads har_data =
     (case py_getitem har_data ''log'' of Inl e \<Rightarrow> Inl e | Inr har_log \<Rightarrow>
     (case py_getitem har_log ''entries'' of Inl e \<Rightarrow> Inl e | Inr har_entries \<Rightarrow>
     (case py_iter har_entries of Inl e \<Rightarrow> Inl e | Inr es \<Rightarrow>
     (case clean_loop loads es [] of Inl e \<Rightarrow> Inl e | Inr cleaned_entries \<Rightarrow>
     (case py_len har_entries of Inl e \<Rightarrow> Inl e | Inr n \<Rightarrow>
     (case ratio_text (length cleaned_entries) n of Inl e \<Rightarrow> Inl e | Inr ratio \<Rightarrow>
        Inr \<lparr>version = ''1.0'',
             creator = ''HAR Cleaner'',
             description =
               ''Cleaned HAR file containing only interesting API calls and MCP interactions'',
             entries = cleaned_entries,
             summary = \<lparr>total_entries = length cleaned_entries,
                         original_entries = n,
                         reduction_ratio = ratio\<rparr>\<rparr>))))))"

text \<open>
  The file system: the text of the files that can be read, the paths that can be opened
  for writing, and what the run has left at each path it opened: the whole document of
  \<^verbatim>\<open>json.dump\<close>, or a truncated file when the dump failed on the way. An exception
  leaves the function at once, so before line 118 nothing has been written. At line 118
  \<^verbatim>\<open>open\<close> raises an \<^verbatim>\<open>OSError\<close> (\<^verbatim>\<open>FileNotFoundError\<close> for a missing directory,
  \<^verbatim>\<open>PermissionError\<close>) when the path cannot be opened; at line 119 the dump raises
  \<^verbatim>\<open>UnicodeEncodeError\<close> when the encoding of the platform cannot encode the document
  (\<open>encodable\<close>, a parameter), after \<^verbatim>\<open>open\<close> has emptied the file. The three
  \<^verbatim>\<open>print\<close> calls that follow the write are left out.
\<close>

datatype written_file = Dumped har_report | Truncated

record world =
  readable :: "string \<rightharpoonup> string"
  writable :: "string \<Rightarrow> bool"
  written :: "string \<rightharpoonup> written_file"

definition clean_har_file ::
  "decoder \<Rightarrow> (har_report \<Rightarrow> bool) \<Rightarrow> string \<Rightarrow> string \<Rightarrow> world \<Rightarrow> unit result \<times> world" where
  "clean_har_file loads encodable input_path output_path w =
     (case readable w input_path of
        None \<Rightarrow> (Inl FileNotFoundError, w)
      | Some text \<Rightarrow>
     (case loads text of
        Inl e \<Rightarrow> (Inl e, w)
      | Inr har_data \<Rightarrow>
     (case build_cleaned_har loads har_data of
        Inl e \<Rightarrow> (Inl e, w)
      | Inr cleaned_har \<Rightarrow>
          if \<not> writable w output_path then (Inl OSError, w)
          else if \<not> encodable cleaned_har
          then (Inl UnicodeEncodeError, w\<lparr>written := (written w)(output_path \<mapsto> Truncated)\<rparr>)
          else (Inr (), w\<lparr>written := (written w)(output_path \<mapsto> Dumped cleaned_har)\<rparr>))))"

section \<open>Notions used to state the properties\<close>

text \<open>
  \<open>field_at path v\<close>: the value reached from \<open>v\<close> through the keys of \<open>path\<close>, every
  step through a \<^verbatim>\<open>dict\<close>; \<open>None\<close> when a key is missing or a step meets another
  kind of value. This is how the specification names the fields of an entry
  (\<^verbatim>\<open>request.postData.text\<close>).
\<close>

fun field_at :: "string list \<Rightarrow> json \<Rightarrow> json option" where
  "field_at [] v = Some v"
| "field_at (k # ks) (JObj kvs) = (case map_of kvs k of None \<Rightarrow> None | Some v \<Rightarrow> field_at ks v)"
| "field_at (k # ks) _ = None"

text \<open>The entries the classifier keeps: those whose \<^verbatim>\<open>request.url\<close> is an interesting text.\<close>

definition interesting_entry :: "json \<Rightarrow> bool" where
  "interesting_entry entry =
     (case field_at [''request'', ''url''] entry of
        Some (JStr s) \<Rightarrow> is_interesting_url s
      | _ \<Rightarrow> False)"

text \<open>
  The normalized message of the specification, for a message with the items \<open>kvs\<close> and
  the payload text \<open>payload\<close>: the decoded payload when it parses, the raw text otherwise;
  the literal \<^verbatim>\<open>unknown\<close> for a missing type and the empty text for a missing time.
\<close>

definition spec_message :: "decoder \<Rightarrow> (string \<times> json) list \<Rightarrow> string \<Rightarrow> ws_message" where
  "spec_message loads kvs payload =
     \<lparr>msg_type = (case map_of kvs ''type'' of Some t \<Rightarrow> t | None \<Rightarrow> JStr ''unknown''),
      msg_time = (case map_of kvs ''time'' of Some t \<Rightarrow> t | None \<Rightarrow> JStr []),
      msg_data = (case loads payload of Inr v \<Rightarrow> v | Inl e \<Rightarrow> JStr payload)\<rparr>"

text \<open>A message that carries a payload text gives one normalized message, any other none.\<close>

fun spec_normalize :: "decoder \<Rightarrow> json \<Rightarrow> ws_message option" where
  "spec_normalize loads (JObj kvs) =
     (case map_of kvs ''data'' of
        Some (JStr payload) \<Rightarrow> Some (spec_message loads kvs payload)
      | _ \<Rightarrow> None)"
| "spec_normalize loads _ = None"


fun textual_body :: "json option \<Rightarrow> bool" where
  "textual_body None = True"
| "textual_body (Some (JObj kvs)) =
     (case map_of kvs ''text'' of None \<Rightarrow> True | Some (JStr s) \<Rightarrow> True | Some _ \<Rightarrow> False)"
| "textual_body (Some _) = False"

fun textual_message :: "json \<Rightarrow> bool" where
  "textual_message (JObj kvs) =
     (case map_of kvs ''data'' of None \<Rightarrow> True | Some (JStr s) \<Rightarrow> True | Some _ \<Rightarrow> False)"
| "textual_message _ = False"

fun textual_messages :: "json option \<Rightarrow> bool" where
  "textual_messages None = True"
| "textual_messages (Some (JArr msgs)) = list_all textual_message msgs"
| "textual_messages (Some _) = False"

definition har_shaped :: "json \<Rightarrow> bool" where
  "har_shaped entry \<longleftrightarrow>
     textual_body (field_at [''request'', ''postData''] entry) \<and>
     textual_body (field_at [''response'', ''content''] entry) \<and>
     textual_messages (field_at [''_webSocketMessages''] entry)"






text \<open>
  A decoder to run the model on examples. It knows a few texts and treats them as
  \<^verbatim>\<open>json.loads\<close> of CPython 3.11 does: three documents; an opening bracket, blanks
  and a closing bracket, which is the empty list whatever its length; and more than 4300
  digits \<^verbatim>\<open>1\<close>, an integer literal beyond the conversion limit, on which the library
  raises \<^verbatim>\<open>ValueError\<close>. It answers \<^verbatim>\<open>JSONDecodeError\<close> on every other text; the
  examples below apply it, beside these, only to texts that are not valid JSON.
\<close>

definition sample_loads :: decoder where
  \<open>sample_loads s =
     (if s = ''{"x":1}'' then Inr (JObj [(''x'', JInt 1)])
      else if s = ''{"log": {"entries": []}}'' then Inr (JObj [(''log'', JObj [(''entries'', JArr [])])])
      else if s = ''null'' then Inr JNull
      else if 4300 < length s \<and> list_all (\<lambda>x. x = CHR ''1'') s then Inl ValueError
      else case s of
        c # rest \<Rightarrow>
          if c = CHR ''['' \<and> rest \<noteq> [] \<and> last rest = CHR '']'' \<and>
             list_all (\<lambda>x. x = CHR '' '') (butlast rest)
          then Inr (JArr [])
          else Inl JSONDecodeError
      | [] \<Rightarrow> Inl JSONDecodeError)\<close>

section \<open>Theorems\<close>




subsection \<open>The extractor, field by field\<close>

text \<open>
  Each stage of the extractor is characterised by the field of the entry it reads. When a
  stage returns, it has changed at most its own field of the record.
\<close>


lemma field_at_Cons:
  "field_at (k # ks) v = (case py_getitem v k of Inr x \<Rightarrow> field_at ks x | Inl e \<Rightarrow> None)"
  by (cases v) (auto split: option.splits)

lemma contains_False_getitem:
  "py_contains k v = Inr False \<Longrightarrow> \<exists>e. py_getitem v k = Inl e"
  by (cases v) (auto split: option.splits)

lemma json_loads_Inr:
  "json_loads loads v = Inr x \<longleftrightarrow> (\<exists>s. v = JStr s \<and> loads s = Inr x)"
  by (cases v) (auto split: option.splits)

lemma json_loads_JSONDecodeError:
  "json_loads loads v = Inl JSONDecodeError \<longleftrightarrow> (\<exists>s. v = JStr s \<and> loads s = Inl JSONDecodeError)"
  by (cases v) (auto split: option.splits)

lemma store_request_body_spec:
  assumes "store_request_body loads v c = Inr c'"
  shows "\<exists>s. v = JStr s \<and>
           c' = c\<lparr>requestBody := Some (case loads s of Inr x \<Rightarrow> x | Inl e \<Rightarrow> JStr s)\<rparr>"
  using assms
  by (cases v)
     (auto simp: store_request_body_def split: option.splits sum.splits py_exception.splits)

lemma add_request_body_spec:
  assumes "add_request_body loads entry c = Inr c'"
  shows "c' = (case field_at [''request'', ''postData'', ''text''] entry of
                 Some (JStr s) \<Rightarrow>
                   c\<lparr>requestBody := Some (case loads s of Inr x \<Rightarrow> x | Inl e \<Rightarrow> JStr s)\<rparr>
               | _ \<Rightarrow> c)"
proof -
  obtain request where r: "py_getitem entry ''request'' = Inr request"
    using assms by (auto simp: add_request_body_def split: sum.splits)
  obtain b1 where b1: "py_contains ''postData'' request = Inr b1"
    using assms r by (auto simp: add_request_body_def split: sum.splits)
  show ?thesis
  proof (cases b1)
    case False
    then show ?thesis
      using assms r b1 contains_False_getitem [of "''postData''" request]
      by (auto simp: add_request_body_def field_at_Cons)
  next
    case True
    then obtain postData where p: "py_getitem request ''postData'' = Inr postData"
      using assms r b1 by (auto simp: add_request_body_def split: sum.splits)
    obtain b2 where b2: "py_contains ''text'' postData = Inr b2"
      using assms r b1 True p by (auto simp: add_request_body_def split: sum.splits)
    show ?thesis
    proof (cases b2)
      case False
      then show ?thesis
        using assms r b1 True p b2 contains_False_getitem [of "''text''" postData]
        by (auto simp: add_request_body_def field_at_Cons)
    next
      case t: True
      then obtain body where bd: "py_getitem postData ''text'' = Inr body"
        using assms r b1 True p b2 by (auto simp: add_request_body_def split: sum.splits)
      have "store_request_body loads body c = Inr c'"
        using assms r b1 True p b2 t bd by (simp add: add_request_body_def)
      from store_request_body_spec [OF this] show ?thesis
        using r p bd by (auto simp: field_at_Cons)
    qed
  qed
qed


lemma store_response_body_spec:
  assumes "store_response_body loads v c = Inr c'"
  shows "c' = (case v of
                 JStr t \<Rightarrow>
                   if t = [] then c
                   else (case loads t of
                           Inr x \<Rightarrow> c\<lparr>responseBody := Some x\<rparr>
                         | Inl e \<Rightarrow>
                             if length t < 10000 then c\<lparr>responseBody := Some (JStr t)\<rparr> else c)
               | _ \<Rightarrow> c)"
  using assms
  by (cases v)
     (auto simp: store_response_body_def
           split: option.splits sum.splits py_exception.splits if_splits)

lemma add_response_body_spec:
  assumes "add_response_body loads entry c = Inr c'"
  shows "c' = (case field_at [''response'', ''content'', ''text''] entry of
                 Some (JStr t) \<Rightarrow>
                   if t = [] then c
                   else (case loads t of
                           Inr x \<Rightarrow> c\<lparr>responseBody := Some x\<rparr>
                         | Inl e \<Rightarrow>
                             if length t < 10000 then c\<lparr>responseBody := Some (JStr t)\<rparr> else c)
               | _ \<Rightarrow> c)"
proof -
  obtain response where r: "py_getitem entry ''response'' = Inr response"
    using assms by (auto simp: add_response_body_def split: sum.splits)
  obtain b1 where b1: "py_contains ''content'' response = Inr b1"
    using assms r by (auto simp: add_response_body_def split: sum.splits)
  show ?thesis
  proof (cases b1)
    case False
    then show ?thesis
      using assms r b1 contains_False_getitem [of "''content''" response]
      by (auto simp: add_response_body_def field_at_Cons)
  next
    case True
    then obtain content where p: "py_getitem response ''content'' = Inr content"
      using assms r b1 by (auto simp: add_response_body_def split: sum.splits)
    obtain b2 where b2: "py_contains ''text'' content = Inr b2"
      using assms r b1 True p by (auto simp: add_response_body_def split: sum.splits)
    show ?thesis
    proof (cases b2)
      case False
      then show ?thesis
        using assms r b1 True p b2 contains_False_getitem [of "''text''" content]
        by (auto simp: add_response_body_def field_at_Cons)
    next
      case t: True
      then obtain body where bd: "py_getitem content ''text'' = Inr body"
        using assms r b1 True p b2 by (auto simp: add_response_body_def split: sum.splits)
      have "store_response_body loads body c = Inr c'"
        using assms r b1 True p b2 t bd by (simp add: add_response_body_def)
      from store_response_body_spec [OF this] show ?thesis
        using r p bd by (simp add: field_at_Cons split: json.splits)
    qed
  qed
qed

lemma ws_step_spec:
  assumes "ws_step loads msg = Inr m"
  shows "m = spec_normalize loads msg"
  using assms
  by (cases msg)
     (auto simp: ws_step_def ws_record_def spec_message_def json_loads_Inr
           split: option.splits sum.splits py_exception.splits if_splits json.splits)

lemma ws_loop_spec:
  "ws_loop loads msgs acc = Inr out \<Longrightarrow>
   out = acc @ List.map_filter (spec_normalize loads) msgs"
proof (induction msgs arbitrary: acc)
  case Nil
  then show ?case by (simp add: List.map_filter_simps)
next
  case (Cons msg rest)
  from Cons.prems obtain m where m: "ws_step loads msg = Inr m"
    by (auto split: sum.splits)
  show ?case
  proof (cases m)
    case None
    then show ?thesis
      using Cons.prems m Cons.IH [of acc] ws_step_spec [OF m]
      by (simp add: List.map_filter_simps)
  next
    case (Some x)
    then show ?thesis
      using Cons.prems m Cons.IH [of "acc @ [x]"] ws_step_spec [OF m]
      by (simp add: List.map_filter_simps)
  qed
qed

lemma add_websocket_messages_spec:
  assumes "add_websocket_messages loads entry c = Inr c'"
  shows "c' = (case field_at [''_webSocketMessages''] entry of
                 Some v \<Rightarrow>
                   (case py_iter v of
                      Inr msgs \<Rightarrow>
                        if List.map_filter (spec_normalize loads) msgs \<noteq> []
                        then c\<lparr>webSocketMessages :=
                                 Some (List.map_filter (spec_normalize loads) msgs)\<rparr>
                        else c
                    | Inl e \<Rightarrow> c)
               | None \<Rightarrow> c)"
proof -
  obtain b where b: "py_contains ''_webSocketMessages'' entry = Inr b"
    using assms by (auto simp: add_websocket_messages_def split: sum.splits)
  show ?thesis
  proof (cases b)
    case False
    then show ?thesis
      using assms b contains_False_getitem [of "''_webSocketMessages''" entry]
      by (auto simp: add_websocket_messages_def field_at_Cons)
  next
    case True
    then obtain ws where w: "py_getitem entry ''_webSocketMessages'' = Inr ws"
      using assms b by (auto simp: add_websocket_messages_def split: sum.splits)
    obtain msgs where i: "py_iter ws = Inr msgs"
      using assms b True w by (auto simp: add_websocket_messages_def split: sum.splits)
    obtain messages where l: "ws_loop loads msgs [] = Inr messages"
      using assms b True w i by (auto simp: add_websocket_messages_def split: sum.splits)
    from ws_loop_spec [OF l] show ?thesis
      using assms b True w i l
      by (auto simp: add_websocket_messages_def field_at_Cons)
  qed
qed


lemma required_fields_None:
  assumes "required_fields entry = Inr c"
  shows "requestBody c = None \<and> responseBody c = None \<and> webSocketMessages c = None"
  using assms by (auto simp: required_fields_def split: sum.splits)

lemma add_request_body_fields:
  assumes "add_request_body loads entry c = Inr c'"
  shows "requestBody c' =
           (case field_at [''request'', ''postData'', ''text''] entry of
              Some (JStr s) \<Rightarrow> Some (case loads s of Inr x \<Rightarrow> x | Inl e \<Rightarrow> JStr s)
            | _ \<Rightarrow> requestBody c)"
    and "responseBody c' = responseBody c"
    and "webSocketMessages c' = webSocketMessages c"
  using add_request_body_spec [OF assms]
  by (simp_all split: option.splits json.splits)

lemma add_response_body_fields:
  assumes "add_response_body loads entry c = Inr c'"
  shows "responseBody c' =
           (case field_at [''response'', ''content'', ''text''] entry of
              Some (JStr t) \<Rightarrow>
                if t = [] then responseBody c
                else (case loads t of
                        Inr x \<Rightarrow> Some x
                      | Inl e \<Rightarrow> if length t < 10000 then Some (JStr t) else responseBody c)
            | _ \<Rightarrow> responseBody c)"
    and "requestBody c' = requestBody c"
    and "webSocketMessages c' = webSocketMessages c"
  using add_response_body_spec [OF assms]
  by (simp_all split: option.splits json.splits sum.splits)

lemma add_websocket_messages_fields:
  assumes "add_websocket_messages loads entry c = Inr c'"
  shows "webSocketMessages c' =
           (case field_at [''_webSocketMessages''] entry of
              Some v \<Rightarrow>
                (case py_iter v of
                   Inr msgs \<Rightarrow>
                     if List.map_filter (spec_normalize loads) msgs \<noteq> []
                     then Some (List.map_filter (spec_normalize loads) msgs)
                     else webSocketMessages c
                 | Inl e \<Rightarrow> webSocketMessages c)
            | None \<Rightarrow> webSocketMessages c)"
    and "requestBody c' = requestBody c"
    and "responseBody c' = responseBody c"
  using add_websocket_messages_spec [OF assms]
  by (simp_all split: option.splits sum.splits)

lemma extract_stages:
  assumes "extract_interesting_content loads entry = Inr r"
  obtains c0 c1 c2 where
    "required_fields entry = Inr c0" and
    "add_request_body loads entry c0 = Inr c1" and
    "add_response_body loads entry c1 = Inr c2" and
    "add_websocket_messages loads entry c2 = Inr r"
  using assms by (auto simp: extract_interesting_content_def split: sum.splits)

lemma extract_requestBody:
  assumes "extract_interesting_content loads entry = Inr r"
  shows "requestBody r =
           (case field_at [''request'', ''postData'', ''text''] entry of
              Some (JStr s) \<Rightarrow> Some (case loads s of Inr x \<Rightarrow> x | Inl e \<Rightarrow> JStr s)
            | _ \<Rightarrow> None)"
proof -
  from assms obtain c0 c1 c2 where
    c0: "required_fields entry = Inr c0" and
    c1: "add_request_body loads entry c0 = Inr c1" and
    c2: "add_response_body loads entry c1 = Inr c2" and
    r: "add_websocket_messages loads entry c2 = Inr r"
    by (rule extract_stages)
  have "requestBody r = requestBody c1"
    using add_websocket_messages_fields(2) [OF r] add_response_body_fields(2) [OF c2]
    by simp
  then show ?thesis
    using add_request_body_fields(1) [OF c1] required_fields_None [OF c0]
    by (simp split: option.splits json.splits)
qed

lemma extract_responseBody:
  assumes "extract_interesting_content loads entry = Inr r"
  shows "responseBody r =
           (case field_at [''response'', ''content'', ''text''] entry of
              Some (JStr t) \<Rightarrow>
                if t = [] then None
                else (case loads t of
                        Inr x \<Rightarrow> Some x
                      | Inl e \<Rightarrow> if length t < 10000 then Some (JStr t) else None)
            | _ \<Rightarrow> None)"
proof -
  from assms obtain c0 c1 c2 where
    c0: "required_fields entry = Inr c0" and
    c1: "add_request_body loads entry c0 = Inr c1" and
    c2: "add_response_body loads entry c1 = Inr c2" and
    r: "add_websocket_messages loads entry c2 = Inr r"
    by (rule extract_stages)
  have "responseBody c1 = None"
    using add_request_body_fields(2) [OF c1] required_fields_None [OF c0] by simp
  moreover have "responseBody r = responseBody c2"
    using add_websocket_messages_fields(3) [OF r] by simp
  ultimately show ?thesis
    using add_response_body_fields(1) [OF c2]
    by (simp split: option.splits json.splits sum.splits)
qed

lemma extract_webSocketMessages:
  assumes "extract_interesting_content loads entry = Inr r"
  shows "webSocketMessages r =
           (case field_at [''_webSocketMessages''] entry of
              Some v \<Rightarrow>
                (case py_iter v of
                   Inr msgs \<Rightarrow>
                     if List.map_filter (spec_normalize loads) msgs \<noteq> []
                     then Some (List.map_filter (spec_normalize loads) msgs)
                     else None
                 | Inl e \<Rightarrow> None)
            | None \<Rightarrow> None)"
proof -
  from assms obtain c0 c1 c2 where
    c0: "required_fields entry = Inr c0" and
    c1: "add_request_body loads entry c0 = Inr c1" and
    c2: "add_response_body loads entry c1 = Inr c2" and
    r: "add_websocket_messages loads entry c2 = Inr r"
    by (rule extract_stages)
  have "webSocketMessages c2 = None"
    using add_response_body_fields(3) [OF c2] add_request_body_fields(3) [OF c1]
      required_fields_None [OF c0]
    by simp
  then show ?thesis
    using add_websocket_messages_fields(1) [OF r]
    by (simp split: option.splits sum.splits)
qed

subsection \<open>The sample decoder on the texts of the examples\<close>

lemma sample_loads_x: "sample_loads (replicate n (CHR ''x'')) = Inl JSONDecodeError"
  by (cases n) (simp_all add: sample_loads_def)

lemma sample_loads_blank_list:
  "sample_loads (CHR ''['' # replicate n (CHR '' '') @ '']'') = Inr (JArr [])"
  by (simp add: sample_loads_def list_all_iff)

lemma sample_loads_empty: "sample_loads [] = Inl JSONDecodeError"
  by (simp add: sample_loads_def)

lemma sample_loads_not_json: "sample_loads ''not json'' = Inl JSONDecodeError"
  by (simp add: sample_loads_def)

lemma sample_loads_x1: \<open>sample_loads ''{"x":1}'' = Inr (JObj [(''x'', JInt 1)])\<close>
  by (simp add: sample_loads_def)

lemmas extract_defs =
  extract_interesting_content_def required_fields_def add_request_body_def
  store_request_body_def add_response_body_def store_response_body_def
  add_websocket_messages_def ws_step_def ws_record_def

subsection \<open>Request and response bodies\<close>

text \<open>
  Claim C3. For every entry with a textual request payload whose text is not valid JSON,
  the record stores the raw request text unmodified, whatever its length. For every entry
  with a non-empty textual response payload whose text is not valid JSON, the raw response
  text is stored only when its length is strictly below 10000 characters; otherwise the
  record has no response body field.
\<close>

theorem raw_text_fallback:
  assumes "extract_interesting_content loads entry = Inr r"
  shows "(field_at [''request'', ''postData'', ''text''] entry = Some (JStr s) \<longrightarrow>
            loads s = Inl JSONDecodeError \<longrightarrow> requestBody r = Some (JStr s)) \<and>
         (field_at [''response'', ''content'', ''text''] entry = Some (JStr t) \<longrightarrow>
            t \<noteq> [] \<longrightarrow> loads t = Inl JSONDecodeError \<longrightarrow>
            responseBody r = (if length t < 10000 then Some (JStr t) else None))"
  using extract_requestBody [OF assms] extract_responseBody [OF assms] by simp

text \<open>
  An entry whose request and response texts are both 10000 letters \<^verbatim>\<open>x\<close>: the request
  text is stored whole, the response text is dropped.
\<close>

theorem raw_text_fallback_witness:
  "\<exists>r. extract_interesting_content sample_loads
          (JObj [(''request'', JObj [(''url'', JStr ''https://anthropic.com/api/v1/chat''),
                                    (''method'', JStr ''POST''),
                                    (''postData'', JObj [(''text'', JStr (replicate 10000 (CHR ''x'')))])]),
                 (''response'', JObj [(''status'', JInt 200),
                                     (''content'', JObj [(''text'', JStr (replicate 10000 (CHR ''x'')))])]),
                 (''startedDateTime'', JStr ''t1'')]) = Inr r \<and>
        requestBody r = Some (JStr (replicate 10000 (CHR ''x''))) \<and>
        responseBody r = None"
proof -
  let ?e = "JObj [(''request'', JObj [(''url'', JStr ''https://anthropic.com/api/v1/chat''),
                                    (''method'', JStr ''POST''),
                                    (''postData'', JObj [(''text'', JStr (replicate 10000 (CHR ''x'')))])]),
                 (''response'', JObj [(''status'', JInt 200),
                                     (''content'', JObj [(''text'', JStr (replicate 10000 (CHR ''x'')))])]),
                 (''startedDateTime'', JStr ''t1'')]"
  obtain r where r: "extract_interesting_content sample_loads ?e = Inr r"
    by (simp add: extract_defs sample_loads_x)
  from raw_text_fallback [OF r, of "replicate 10000 (CHR ''x'')" "replicate 10000 (CHR ''x'')"]
  have "requestBody r = Some (JStr (replicate 10000 (CHR ''x''))) \<and> responseBody r = None"
    by (simp add: sample_loads_x)
  with r show ?thesis by blast
qed


text \<open>
  Claim C10. For every entry whose non-empty textual response payload parses as valid
  JSON, the decoded value is stored in the record whatever the length of the payload: the
  threshold of 10000 characters applies only to payloads that fail to decode.
\<close>

theorem parsed_response_any_length:
  assumes "extract_interesting_content loads entry = Inr r"
    and "field_at [''response'', ''content'', ''text''] entry = Some (JStr t)"
    and "t \<noteq> []"
    and "loads t = Inr v"
  shows "responseBody r = Some v"
  using extract_responseBody [OF assms(1)] assms(2-4) by simp

text \<open>A response text of 10002 characters that decodes to the empty list.\<close>

theorem parsed_response_any_length_witness:
  "10000 < length (CHR ''['' # replicate 10000 (CHR '' '') @ '']'') \<and>
   (\<exists>r. extract_interesting_content sample_loads
          (JObj [(''request'', JObj [(''url'', JStr ''https://anthropic.com/api/v1/chat''),
                                    (''method'', JStr ''GET'')]),
                 (''response'', JObj [(''status'', JInt 200),
                                     (''content'', JObj [(''text'',
                                        JStr (CHR ''['' # replicate 10000 (CHR '' '') @ '']''))])]),
                 (''startedDateTime'', JStr ''t1'')]) = Inr r \<and>
        responseBody r = Some (JArr []))"
proof -
  let ?t = "CHR ''['' # replicate 10000 (CHR '' '') @ '']''"
  let ?e = "JObj [(''request'', JObj [(''url'', JStr ''https://anthropic.com/api/v1/chat''),
                                    (''method'', JStr ''GET'')]),
                 (''response'', JObj [(''status'', JInt 200),
                                     (''content'', JObj [(''text'', JStr ?t)])]),
                 (''startedDateTime'', JStr ''t1'')]"
  obtain r where r: "extract_interesting_content sample_loads ?e = Inr r"
    by (simp add: extract_defs sample_loads_blank_list)
  have "responseBody r = Some (JArr [])"
    by (rule parsed_response_any_length [OF r, of ?t])
       (simp_all add: sample_loads_blank_list)
  with r show ?thesis by auto
qed

subsection \<open>Optional fields and their sources\<close>

lemma map_filter_JStr:
  "List.map_filter (spec_normalize loads) (map (\<lambda>x. JStr (f x)) xs) = []"
  by (induction xs) (simp_all add: List.map_filter_simps)

text \<open>
  Claim C8, as the code has it. For every extracted record, each optional field is
  present only when the corresponding source data is present: a request body only when
  \<^verbatim>\<open>request.postData.text\<close> is a text, a response body only when
  \<^verbatim>\<open>response.content.text\<close> is a non-empty text, and the WebSocket messages only when
  \<^verbatim>\<open>_webSocketMessages\<close> is a non-empty list. A present but empty response text or
  message list never produces an output field. The request path has no test for
  emptiness (line 48 tests the keys only, where line 58 tests \<^verbatim>\<open>if response_text:\<close>).
\<close>

theorem optional_fields_need_source:
  assumes "extract_interesting_content loads entry = Inr r"
  shows "(requestBody r \<noteq> None \<longrightarrow>
            (\<exists>s. field_at [''request'', ''postData'', ''text''] entry = Some (JStr s))) \<and>
         (responseBody r \<noteq> None \<longrightarrow>
            (\<exists>t. field_at [''response'', ''content'', ''text''] entry = Some (JStr t) \<and> t \<noteq> [])) \<and>
         (webSocketMessages r \<noteq> None \<longrightarrow>
            (\<exists>msgs. field_at [''_webSocketMessages''] entry = Some (JArr msgs) \<and> msgs \<noteq> []))"
proof (intro conjI impI)
  assume "requestBody r \<noteq> None"
  then show "\<exists>s. field_at [''request'', ''postData'', ''text''] entry = Some (JStr s)"
    using extract_requestBody [OF assms] by (auto split: option.splits json.splits)
next
  assume "responseBody r \<noteq> None"
  then show "\<exists>t. field_at [''response'', ''content'', ''text''] entry = Some (JStr t) \<and> t \<noteq> []"
    using extract_responseBody [OF assms]
    by (auto split: option.splits json.splits if_splits sum.splits)
next
  assume a: "webSocketMessages r \<noteq> None"
  then obtain v msgs where v: "field_at [''_webSocketMessages''] entry = Some v"
    and i: "py_iter v = Inr msgs"
    and m: "List.map_filter (spec_normalize loads) msgs \<noteq> []"
    using extract_webSocketMessages [OF assms]
    by (auto split: option.splits sum.splits if_splits)
  have "v = JArr msgs \<and> msgs \<noteq> []"
    using i m by (cases v) (auto simp: map_filter_JStr List.map_filter_simps)
  with v show "\<exists>msgs. field_at [''_webSocketMessages''] entry = Some (JArr msgs) \<and> msgs \<noteq> []"
    by blast
qed

text \<open>
  Claim C8 as stated fails for the request body: a request text that is present and
  empty is not valid JSON, so line 53 stores it, and the record has a request body field
  holding the empty text.
\<close>

theorem empty_request_text_is_stored:
  "extract_interesting_content sample_loads
     (JObj [(''request'', JObj [(''url'', JStr ''https://anthropic.com/api/v1/chat''),
                               (''method'', JStr ''POST''),
                               (''postData'', JObj [(''text'', JStr [])])]),
            (''response'', JObj [(''status'', JInt 200)]),
            (''startedDateTime'', JStr ''t1'')]) =
   Inr \<lparr>url = JStr ''https://anthropic.com/api/v1/chat'', http_method = JStr ''POST'',
        status = JInt 200, startedDateTime = JStr ''t1'',
        requestBody = Some (JStr []), responseBody = None, webSocketMessages = None\<rparr>"
  by (simp add: extract_defs sample_loads_empty)

subsection \<open>WebSocket messages\<close>

text \<open>
  Claim C4, as the code has it. For every entry carrying a list of WebSocket messages,
  each message that has a \<^verbatim>\<open>data\<close> payload produces, in arrival order, exactly one
  normalized message \<open>{type, time, data}\<close>: the decoded value when the payload parses,
  the raw payload text otherwise, with a missing type defaulting to \<^verbatim>\<open>unknown\<close> and a
  missing time to the empty text. A message without \<^verbatim>\<open>data\<close> produces none (the test
  \<^verbatim>\<open>if 'data' in msg\<close> of line 72 skips it). The WebSocket field is omitted from the
  record exactly when the resulting list is empty.
\<close>

theorem websocket_messages_normalized:
  assumes "extract_interesting_content loads entry = Inr r"
    and "field_at [''_webSocketMessages''] entry = Some (JArr msgs)"
  shows "webSocketMessages r =
           (if List.map_filter (spec_normalize loads) msgs = [] then None
            else Some (List.map_filter (spec_normalize loads) msgs))"
  using extract_webSocketMessages [OF assms(1)] assms(2) by simp

text \<open>
  Claim C4 as stated fails on a message without payload: the entry below carries one
  message, of type \<^verbatim>\<open>receive\<close>, and the record has no WebSocket field at all, where the
  claim gives one normalized message with the empty text as data.
\<close>

theorem message_without_payload_is_dropped:
  "extract_interesting_content sample_loads
     (JObj [(''request'', JObj [(''url'', JStr ''wss://example.org/mcp''),
                               (''method'', JStr ''GET'')]),
            (''response'', JObj [(''status'', JInt 101)]),
            (''startedDateTime'', JStr ''t1''),
            (''_webSocketMessages'', JArr [JObj [(''type'', JStr ''receive''), (''time'', JInt 1)]])]) =
   Inr \<lparr>url = JStr ''wss://example.org/mcp'', http_method = JStr ''GET'',
        status = JInt 101, startedDateTime = JStr ''t1'',
        requestBody = None, responseBody = None, webSocketMessages = None\<rparr>"
  by (simp add: extract_defs)


subsection \<open>When the extractor returns\<close>













text \<open>
  The condition on the decoder is needed: on a request text of 4301 digits
  \<^verbatim>\<open>json.loads\<close> raises \<^verbatim>\<open>ValueError\<close>, which leaves the extractor although the
  entry has the shape of the HAR format.
\<close>

lemma sample_loads_long_integer:
  assumes "4300 < n"
  shows "sample_loads (replicate n (CHR ''1'')) = Inl ValueError"
  using assms by (cases n) (simp_all add: sample_loads_def list_all_iff)

lemma extract_raises_on_long_integer:
  "har_shaped
     (JObj [(''request'', JObj [(''url'', JStr ''https://anthropic.com/api/v1/chat''),
                               (''method'', JStr ''POST''),
                               (''postData'', JObj [(''text'', JStr (replicate 4301 (CHR ''1'')))])]),
            (''response'', JObj [(''status'', JInt 200)]),
            (''startedDateTime'', JStr ''t1'')]) \<and>
   extract_interesting_content sample_loads
     (JObj [(''request'', JObj [(''url'', JStr ''https://anthropic.com/api/v1/chat''),
                               (''method'', JStr ''POST''),
                               (''postData'', JObj [(''text'', JStr (replicate 4301 (CHR ''1'')))])]),
            (''response'', JObj [(''status'', JInt 200)]),
            (''startedDateTime'', JStr ''t1'')]) = Inl ValueError"
  by (simp add: extract_defs har_shaped_def sample_loads_long_integer)


theorem optional_fields_need_source_witness:
  \<open>\<exists>r. extract_interesting_content sample_loads
     (JObj [(''request'', JObj [(''url'', JStr ''wss://example.org/api/v1/mcp/socket''),
                               (''method'', JStr ''POST''),
                               (''postData'', JObj [(''text'', JStr ''{"x":1}'')])]),
            (''response'', JObj [(''status'', JInt 101),
                                (''content'', JObj [(''text'', JStr ''not json'')])]),
            (''startedDateTime'', JStr ''t1''),
            (''_webSocketMessages'',
               JArr [JObj [(''type'', JStr ''send''), (''time'', JFloat 3 (- 1)),
                           (''data'', JStr ''{"x":1}'')],
                     JObj [(''data'', JStr ''not json'')],
                     JObj [(''type'', JStr ''receive'')]])]) = Inr r \<and>
     requestBody r \<noteq> None \<and> responseBody r \<noteq> None \<and> webSocketMessages r \<noteq> None \<and>
     (\<exists>s. field_at [''request'', ''postData'', ''text'']
     (JObj [(''request'', JObj [(''url'', JStr ''wss://example.org/api/v1/mcp/socket''),
                               (''method'', JStr ''POST''),
                               (''postData'', JObj [(''text'', JStr ''{"x":1}'')])]),
            (''response'', JObj [(''status'', JInt 101),
                                (''content'', JObj [(''text'', JStr ''not json'')])]),
            (''startedDateTime'', JStr ''t1''),
            (''_webSocketMessages'',
               JArr [JObj [(''type'', JStr ''send''), (''time'', JFloat 3 (- 1)),
                           (''data'', JStr ''{"x":1}'')],
                     JObj [(''data'', JStr ''not json'')],
                     JObj [(''type'', JStr ''receive'')]])]) = Some (JStr s)) \<and>
     (\<exists>t. field_at [''response'', ''content'', ''text'']
     (JObj [(''request'', JObj [(''url'', JStr ''wss://example.org/api/v1/mcp/socket''),
                               (''method'', JStr ''POST''),
                               (''postData'', JObj [(''text'', JStr ''{"x":1}'')])]),
            (''response'', JObj [(''status'', JInt 101),
                                (''content'', JObj [(''text'', JStr ''not json'')])]),
            (''startedDateTime'', JStr ''t1''),
            (''_webSocketMessages'',
               JArr [JObj [(''type'', JStr ''send''), (''time'', JFloat 3 (- 1)),
                           (''data'', JStr ''{"x":1}'')],
                     JObj [(''data'', JStr ''not json'')],
                     JObj [(''type'', JStr ''receive'')]])]) = Some (JStr t) \<and> t \<noteq> []) \<and>
     (\<exists>msgs. field_at [''_webSocketMessages'']
     (JObj [(''request'', JObj [(''url'', JStr ''wss://example.org/api/v1/mcp/socket''),
                               (''method'', JStr ''POST''),
                               (''postData'', JObj [(''text'', JStr ''{"x":1}'')])]),
            (''response'', JObj [(''status'', JInt 101),
                                (''content'', JObj [(''text'', JStr ''not json'')])]),
            (''startedDateTime'', JStr ''t1''),
            (''_webSocketMessages'',
               JArr [JObj [(''type'', JStr ''send''), (''time'', JFloat 3 (- 1)),
                           (''data'', JStr ''{"x":1}'')],
                     JObj [(''data'', JStr ''not json'')],
                     JObj [(''type'', JStr ''receive'')]])]) = Some (JArr msgs) \<and> msgs \<noteq> [])\<close>
proof -
  let ?e = \<open>JObj [(''request'', JObj [(''url'', JStr ''wss://example.org/api/v1/mcp/socket''),
                               (''method'', JStr ''POST''),
                               (''postData'', JObj [(''text'', JStr ''{"x":1}'')])]),
            (''response'', JObj [(''status'', JInt 101),
                                (''content'', JObj [(''text'', JStr ''not json'')])]),
            (''startedDateTime'', JStr ''t1''),
            (''_webSocketMessages'',
               JArr [JObj [(''type'', JStr ''send''), (''time'', JFloat 3 (- 1)),
                           (''data'', JStr ''{"x":1}'')],
                     JObj [(''data'', JStr ''not json'')],
                     JObj [(''type'', JStr ''receive'')]])]\<close>
  obtain r where r: "extract_interesting_content sample_loads ?e = Inr r"
    and f: "requestBody r \<noteq> None" "responseBody r \<noteq> None" "webSocketMessages r \<noteq> None"
    by (simp add: extract_defs sample_loads_x1 sample_loads_not_json)
  from optional_fields_need_source [OF r] f r show ?thesis by blast
qed

theorem websocket_messages_normalized_witness:
  \<open>\<exists>r. extract_interesting_content sample_loads
     (JObj [(''request'', JObj [(''url'', JStr ''wss://example.org/api/v1/mcp/socket''),
                               (''method'', JStr ''POST''),
                               (''postData'', JObj [(''text'', JStr ''{"x":1}'')])]),
            (''response'', JObj [(''status'', JInt 101),
                                (''content'', JObj [(''text'', JStr ''not json'')])]),
            (''startedDateTime'', JStr ''t1''),
            (''_webSocketMessages'',
               JArr [JObj [(''type'', JStr ''send''), (''time'', JFloat 3 (- 1)),
                           (''data'', JStr ''{"x":1}'')],
                     JObj [(''data'', JStr ''not json'')],
                     JObj [(''type'', JStr ''receive'')]])]) = Inr r \<and>
     webSocketMessages r =
       Some [\<lparr>msg_type = JStr ''send'', msg_time = JFloat 3 (- 1),
               msg_data = JObj [(''x'', JInt 1)]\<rparr>,
             \<lparr>msg_type = JStr ''unknown'', msg_time = JStr [],
               msg_data = JStr ''not json''\<rparr>]\<close>
proof -
  let ?e = \<open>JObj [(''request'', JObj [(''url'', JStr ''wss://example.org/api/v1/mcp/socket''),
                               (''method'', JStr ''POST''),
                               (''postData'', JObj [(''text'', JStr ''{"x":1}'')])]),
            (''response'', JObj [(''status'', JInt 101),
                                (''content'', JObj [(''text'', JStr ''not json'')])]),
            (''startedDateTime'', JStr ''t1''),
            (''_webSocketMessages'',
               JArr [JObj [(''type'', JStr ''send''), (''time'', JFloat 3 (- 1)),
                           (''data'', JStr ''{"x":1}'')],
                     JObj [(''data'', JStr ''not json'')],
                     JObj [(''type'', JStr ''receive'')]])]\<close>
  obtain r where r: "extract_interesting_content sample_loads ?e = Inr r"
    by (simp add: extract_defs sample_loads_x1 sample_loads_not_json)
  have \<open>field_at [''_webSocketMessages''] ?e =
          Some (JArr [JObj [(''type'', JStr ''send''), (''time'', JFloat 3 (- 1)),
                            (''data'', JStr ''{"x":1}'')],
                      JObj [(''data'', JStr ''not json'')],
                      JObj [(''type'', JStr ''receive'')]])\<close>
    by simp
  from websocket_messages_normalized [OF r this] r show ?thesis
    by (simp add: List.map_filter_simps spec_message_def sample_loads_x1 sample_loads_not_json)
qed

subsection \<open>Bounds of the rounded arithmetic\<close>

text \<open>
  Rounding to the nearest \<^verbatim>\<open>float\<close> never crosses an integer between 0 and 128: such
  an integer is a \<^verbatim>\<open>float\<close> itself, on the grid of every smaller one.
\<close>

lemma round_half_even_nonneg:
  assumes "0 < b" and "0 \<le> a"
  shows "0 \<le> round_half_even a b"
proof -
  have "0 \<le> a div b" using assms by (simp add: pos_imp_zdiv_nonneg_iff)
  then show ?thesis by (simp add: round_half_even_def Let_def)
qed

lemma round_half_even_le:
  assumes "0 < b" and "a \<le> c * b"
  shows "round_half_even a b \<le> c"
proof -
  have q: "a div b \<le> c"
    using zdiv_mono1 [OF assms(2) assms(1)] assms(1) by simp
  have q1: "a div b + 1 \<le> c" if "0 < a mod b"
  proof (rule ccontr)
    assume "\<not> a div b + 1 \<le> c"
    with q have "a div b = c" by simp
    then have "a = c * b + a mod b" using div_mult_mod_eq [of a b] by simp
    with that assms show False by simp
  qed
  have r: "0 \<le> a mod b" using assms by simp
  show ?thesis
    using q q1 r assms by (auto simp: round_half_even_def Let_def)
qed

lemma bit_length_mono: "a \<le> b \<Longrightarrow> bit_length a \<le> bit_length b"
proof (induction a arbitrary: b rule: bit_length.induct)
  case (1 a)
  show ?case
  proof (cases "a \<le> 0")
    case True
    then show ?thesis by simp
  next
    case False
    with "1.prems" have b: "\<not> b \<le> 0" by simp
    have "a div 2 \<le> b div 2" using zdiv_mono1 [OF "1.prems", of 2] by simp
    from "1.IH" [OF False this] False b show ?thesis
      by (subst bit_length.simps, subst (2) bit_length.simps) simp
  qed
qed

lemma bit_length_double: "0 < a \<Longrightarrow> bit_length (2 * a) = Suc (bit_length a)"
  by (subst bit_length.simps) simp

lemma bit_length_128: "0 < b \<Longrightarrow> bit_length (128 * b) = bit_length b + 7"
proof -
  assume b: "0 < b"
  have "128 * b = 2 * (2 * (2 * (2 * (2 * (2 * (2 * b))))))" by simp
  then show ?thesis using b by (simp only: bit_length_double) 
qed


lemma binary_exponent_le:
  "binary_exponent a b \<le> int (bit_length a) - int (bit_length b)"
  by (simp add: binary_exponent_def Let_def)

lemma round_positive_bounds:
  assumes "0 < a" and "0 < b" and "a \<le> c * b" and "c \<le> 128"
  shows "case round_positive a b of (m, d) \<Rightarrow> 0 < d \<and> 0 \<le> m \<and> m \<le> c * d"
proof -
  have "c * b \<le> 128 * b" using assms(2,4) by (simp add: mult_right_mono)
  with assms(3) have "a \<le> 128 * b" by simp
  from bit_length_mono [OF this] have "bit_length a \<le> bit_length b + 7"
    using bit_length_128 [OF assms(2)] by simp
  with binary_exponent_le [of a b] have e: "binary_exponent a b - 52 < 0" by simp
  define k where "k = nat (- (binary_exponent a b - 52))"
  have rp: "round_positive a b = (round_half_even (a * 2 ^ k) b, 2 ^ k)"
    using e by (simp add: round_positive_def Let_def k_def)
  have "a * 2 ^ k \<le> (c * b) * 2 ^ k" using assms(3) by (simp add: mult_right_mono)
  then have "a * 2 ^ k \<le> (c * 2 ^ k) * b" by (simp add: mult.assoc mult.commute mult.left_commute)
  from round_half_even_le [OF assms(2) this]
  have u: "round_half_even (a * 2 ^ k) b \<le> c * 2 ^ k" .
  have "0 \<le> a * 2 ^ k" using assms(1) by simp
  from round_half_even_nonneg [OF assms(2) this]
  have l: "0 \<le> round_half_even (a * 2 ^ k) b" .
  show ?thesis using rp u l by simp
qed

lemma to_double_bounds:
  assumes "0 < b" and "0 \<le> a" and "a \<le> c * b" and "0 \<le> c" and "c \<le> 128"
  shows "case to_double a b of (m, d) \<Rightarrow> 0 < d \<and> 0 \<le> m \<and> m \<le> c * d"
proof (cases "a = 0")
  case True
  then show ?thesis using assms(4) by (simp add: to_double_def)
next
  case False
  with assms(2) have "0 < a" by simp
  from round_positive_bounds [OF this assms(1,3,5)] \<open>0 < a\<close>
  show ?thesis by (simp add: to_double_def)
qed

lemma ratio_value_bounds:
  assumes "k \<le> n" and "0 < n"
  shows "case ratio_value k n of (a, b) \<Rightarrow> 0 < b \<and> 0 \<le> a \<and> a \<le> 100 * b"
proof -
  obtain xa xb where x: "to_double (int k) (int n) = (xa, xb)" by (cases "to_double (int k) (int n)")
  have "case to_double (int k) (int n) of (m, d) \<Rightarrow> 0 < d \<and> 0 \<le> m \<and> m \<le> 1 * d"
    using assms by (intro to_double_bounds) simp_all
  with x have xb: "0 < xb" "0 \<le> xa" "xa \<le> xb" by simp_all
  obtain ya yb where y: "to_double (xb - xa) xb = (ya, yb)" by (cases "to_double (xb - xa) xb")
  have "case to_double (xb - xa) xb of (m, d) \<Rightarrow> 0 < d \<and> 0 \<le> m \<and> m \<le> 1 * d"
    using xb by (intro to_double_bounds) simp_all
  with y have yb: "0 < yb" "0 \<le> ya" "ya \<le> yb" by simp_all
  have "case to_double (ya * 100) yb of (m, d) \<Rightarrow> 0 < d \<and> 0 \<le> m \<and> m \<le> 100 * d"
    using yb by (intro to_double_bounds) simp_all
  then show ?thesis
    using x y by (simp add: ratio_value_def float_sub_def float_mul_def float_of_int_def)
qed


subsection \<open>The report\<close>

lemma clean_step_spec:
  assumes "clean_step loads entry = Inr m"
  shows "if interesting_entry entry
         then \<exists>c. extract_interesting_content loads entry = Inr c \<and> m = Some c
         else m = None"
proof -
  from assms obtain request u where r: "py_getitem entry ''request'' = Inr request"
    and u: "py_getitem request ''url'' = Inr u"
    by (auto simp: clean_step_def split: sum.splits)
  from assms r u obtain s where s: "u = JStr s"
    by (cases u) (simp_all add: clean_step_def)
  have i: "interesting_entry entry = is_interesting_url s"
    using r u s by (simp add: interesting_entry_def field_at_Cons)
  show ?thesis
    using assms r u s i
    by (cases "extract_interesting_content loads entry")
       (auto simp: clean_step_def split: if_splits)
qed

lemma clean_loop_spec:
  "clean_loop loads es acc = Inr out \<Longrightarrow>
   map Inr out = map Inr acc @ map (extract_interesting_content loads) (filter interesting_entry es)"
proof (induction es arbitrary: acc)
  case Nil
  then show ?case by simp
next
  case (Cons entry rest)
  from Cons.prems obtain m where m: "clean_step loads entry = Inr m"
    by (auto split: sum.splits)
  show ?case
  proof (cases m)
    case None
    then show ?thesis
      using Cons.prems m Cons.IH [of acc] clean_step_spec [OF m]
      by (simp split: if_splits)
  next
    case (Some c)
    then show ?thesis
      using Cons.prems m Cons.IH [of "acc @ [c]"] clean_step_spec [OF m]
      by (simp split: if_splits)
  qed
qed

lemma clean_loop_length:
  "clean_loop loads es acc = Inr out \<Longrightarrow> length out \<le> length acc + length es"
proof (induction es arbitrary: acc)
  case Nil
  then show ?case by simp
next
  case (Cons entry rest)
  from Cons.prems obtain m where m: "clean_step loads entry = Inr m"
    by (auto split: sum.splits)
  show ?case
  proof (cases m)
    case None
    then show ?thesis using Cons.prems m Cons.IH [of acc] by simp
  next
    case (Some c)
    then show ?thesis using Cons.prems m Cons.IH [of "acc @ [c]"] by simp
  qed
qed

lemma py_iter_len: "py_iter v = Inr es \<Longrightarrow> py_len v = Inr (length es)"
  by (cases v) auto

lemma build_cleaned_har_stages:
  assumes "build_cleaned_har loads har_data = Inr report"
  obtains har_entries es ratio where
    "field_at [''log'', ''entries''] har_data = Some har_entries" and
    "py_iter har_entries = Inr es" and
    "clean_loop loads es [] = Inr (entries report)" and
    "ratio_text (length (entries report)) (length es) = Inr ratio" and
    "summary report = \<lparr>total_entries = length (entries report),
                        original_entries = length es,
                        reduction_ratio = ratio\<rparr>"
proof -
  from assms obtain har_log har_entries es cleaned n ratio where
    a: "py_getitem har_data ''log'' = Inr har_log"
       "py_getitem har_log ''entries'' = Inr har_entries"
       "py_iter har_entries = Inr es"
       "clean_loop loads es [] = Inr cleaned"
       "py_len har_entries = Inr n"
       "ratio_text (length cleaned) n = Inr ratio"
    by (auto simp: build_cleaned_har_def split: sum.splits)
  have n: "n = length es" using py_iter_len [OF a(3)] a(5) by simp
  have r: "entries report = cleaned"
     "summary report = \<lparr>total_entries = length cleaned, original_entries = n,
                         reduction_ratio = ratio\<rparr>"
    using assms a by (auto simp: build_cleaned_har_def)
  show ?thesis
    using a n r by (intro that [of har_entries es ratio]) (simp_all add: field_at_Cons)
qed

text \<open>
  Claim C2. For every input capture document, a normalized record appears in the output
  entries sequence if and only if the request URL of the corresponding source entry
  satisfies the classifier: the output entries are the extracted records of exactly the
  interesting source entries, in the order of the source, one per kept entry, with no
  reordering and no deduplication.
\<close>

theorem kept_entries_in_order:
  assumes "build_cleaned_har loads har_data = Inr report"
    and "field_at [''log'', ''entries''] har_data = Some (JArr es)"
  shows "map Inr (entries report) =
           map (extract_interesting_content loads) (filter interesting_entry es)"
proof -
  from assms(1) obtain har_entries es' where
    "field_at [''log'', ''entries''] har_data = Some har_entries" and
    "py_iter har_entries = Inr es'" and
    l: "clean_loop loads es' [] = Inr (entries report)"
    by (rule build_cleaned_har_stages)
  with assms(2) have "es' = es" by simp
  with clean_loop_spec [OF l] show ?thesis by simp
qed

text \<open>
  The document of two entries given in the specification: a chat call with the request
  text \<^verbatim>\<open>{"x":1}\<close>, and a style sheet from \<^verbatim>\<open>fonts.googleapis.com\<close>.
\<close>

lemma example_urls:
  "is_interesting_url ''https://anthropic.com/api/v1/chat''"
  "\<not> is_interesting_url ''https://fonts.googleapis.com/x.css''"
  by code_simp+

lemma example_ratios:
  "ratio_text 1 2 = Inr ''50.0%''"
  "ratio_text 0 10 = Inr ''100.0%''"
  "ratio_text 10 10 = Inr ''0.0%''"
  by code_simp+

lemma example_report:
  \<open>build_cleaned_har sample_loads
     (JObj [(''log'', JObj [(''entries'', JArr
            [JObj [(''request'', JObj [(''url'', JStr ''https://anthropic.com/api/v1/chat''),
                                      (''method'', JStr ''POST''),
                                      (''postData'', JObj [(''text'', JStr ''{"x":1}'')])]),
                   (''response'', JObj [(''status'', JInt 200)]),
                   (''startedDateTime'', JStr ''t1'')],
             JObj [(''request'', JObj [(''url'', JStr ''https://fonts.googleapis.com/x.css''),
                                      (''method'', JStr ''GET'')]),
                   (''response'', JObj [(''status'', JInt 200)]),
                   (''startedDateTime'', JStr ''t2'')]])])]) =
   Inr \<lparr>version = ''1.0'', creator = ''HAR Cleaner'',
        description =
          ''Cleaned HAR file containing only interesting API calls and MCP interactions'',
        entries =
          [\<lparr>url = JStr ''https://anthropic.com/api/v1/chat'', http_method = JStr ''POST'',
            status = JInt 200, startedDateTime = JStr ''t1'',
            requestBody = Some (JObj [(''x'', JInt 1)]), responseBody = None,
            webSocketMessages = None\<rparr>],
        summary = \<lparr>total_entries = 1, original_entries = 2,
                    reduction_ratio = ''50.0%''\<rparr>\<rparr>\<close>
  using example_ratios(1)
  by (simp add: build_cleaned_har_def clean_step_def extract_defs example_urls sample_loads_x1
        numeral_2_eq_2)

text \<open>On that document exactly the first entry is kept.\<close>

theorem kept_entries_in_order_witness:
  \<open>\<exists>report c.
     build_cleaned_har sample_loads
       (JObj [(''log'', JObj [(''entries'', JArr
            [JObj [(''request'', JObj [(''url'', JStr ''https://anthropic.com/api/v1/chat''),
                                      (''method'', JStr ''POST''),
                                      (''postData'', JObj [(''text'', JStr ''{"x":1}'')])]),
                   (''response'', JObj [(''status'', JInt 200)]),
                   (''startedDateTime'', JStr ''t1'')],
             JObj [(''request'', JObj [(''url'', JStr ''https://fonts.googleapis.com/x.css''),
                                      (''method'', JStr ''GET'')]),
                   (''response'', JObj [(''status'', JInt 200)]),
                   (''startedDateTime'', JStr ''t2'')]])])]) = Inr report \<and>
     entries report = [c] \<and>
     extract_interesting_content sample_loads
       (JObj [(''request'', JObj [(''url'', JStr ''https://anthropic.com/api/v1/chat''),
                                      (''method'', JStr ''POST''),
                                      (''postData'', JObj [(''text'', JStr ''{"x":1}'')])]),
                   (''response'', JObj [(''status'', JInt 200)]),
                   (''startedDateTime'', JStr ''t1'')]) = Inr c \<and>
     interesting_entry
       (JObj [(''request'', JObj [(''url'', JStr ''https://anthropic.com/api/v1/chat''),
                                      (''method'', JStr ''POST''),
                                      (''postData'', JObj [(''text'', JStr ''{"x":1}'')])]),
                   (''response'', JObj [(''status'', JInt 200)]),
                   (''startedDateTime'', JStr ''t1'')]) \<and>
     \<not> interesting_entry
       (JObj [(''request'', JObj [(''url'', JStr ''https://fonts.googleapis.com/x.css''),
                                      (''method'', JStr ''GET'')]),
                   (''response'', JObj [(''status'', JInt 200)]),
                   (''startedDateTime'', JStr ''t2'')])\<close>
proof -
  let ?e1 = \<open>JObj [(''request'', JObj [(''url'', JStr ''https://anthropic.com/api/v1/chat''),
                                      (''method'', JStr ''POST''),
                                      (''postData'', JObj [(''text'', JStr ''{"x":1}'')])]),
                   (''response'', JObj [(''status'', JInt 200)]),
                   (''startedDateTime'', JStr ''t1'')]\<close>
  let ?e2 = \<open>JObj [(''request'', JObj [(''url'', JStr ''https://fonts.googleapis.com/x.css''),
                                      (''method'', JStr ''GET'')]),
                   (''response'', JObj [(''status'', JInt 200)]),
                   (''startedDateTime'', JStr ''t2'')]\<close>
  let ?doc = "JObj [(''log'', JObj [(''entries'', JArr [?e1, ?e2])])]"
  obtain report where r: "build_cleaned_har sample_loads ?doc = Inr report"
    using example_report by simp
  have f: "field_at [''log'', ''entries''] ?doc = Some (JArr [?e1, ?e2])" by simp
  have i: "interesting_entry ?e1" "\<not> interesting_entry ?e2"
    by (simp_all add: interesting_entry_def example_urls)
  from kept_entries_in_order [OF r f] i
  have "map Inr (entries report) = [extract_interesting_content sample_loads ?e1]"
    by simp
  then obtain c where "entries report = [c]"
    and "extract_interesting_content sample_loads ?e1 = Inr c"
    by (cases "entries report") auto
  with r i show ?thesis by blast
qed


subsection \<open>The summary\<close>



text \<open>
  Claim C9. For every input document with at least one entry, \<open>total_entries\<close> equals the
  length of the emitted entries and is at most \<open>original_entries\<close> (the filter never adds
  entries), so the value of the reduction ratio, the \<^verbatim>\<open>float\<close> that is formatted, lies
  between 0 and 100 inclusive. A report exists only for such a document.
\<close>

theorem summary_counts_and_ratio_range:
  assumes "build_cleaned_har loads har_data = Inr report"
  shows "total_entries (summary report) = length (entries report) \<and>
         total_entries (summary report) \<le> original_entries (summary report) \<and>
         0 < original_entries (summary report) \<and>
         (case ratio_value (total_entries (summary report)) (original_entries (summary report)) of
            (a, b) \<Rightarrow> 0 < b \<and> 0 \<le> a \<and> a \<le> 100 * b) \<and>
         reduction_ratio (summary report) =
           format_1f (ratio_value (total_entries (summary report))
                        (original_entries (summary report))) @ ''%''"
proof -
  from assms obtain har_entries es ratio where
    "field_at [''log'', ''entries''] har_data = Some har_entries" and
    "py_iter har_entries = Inr es" and
    l: "clean_loop loads es [] = Inr (entries report)" and
    r: "ratio_text (length (entries report)) (length es) = Inr ratio" and
    s: "summary report = \<lparr>total_entries = length (entries report),
                           original_entries = length es,
                           reduction_ratio = ratio\<rparr>"
    by (rule build_cleaned_har_stages)
  from r have n: "0 < length es" by (auto simp: ratio_text_def)
  from clean_loop_length [OF l] have k: "length (entries report) \<le> length es" by simp
  from r n have t: "ratio = format_1f (ratio_value (length (entries report)) (length es)) @ ''%''"
    by (simp add: ratio_text_def)
  from ratio_value_bounds [OF k n] s n k t show ?thesis by simp
qed

theorem summary_counts_and_ratio_range_witness:
  \<open>\<exists>report.
      build_cleaned_har sample_loads
        (JObj [(''log'', JObj [(''entries'', JArr
            [JObj [(''request'', JObj [(''url'', JStr ''https://anthropic.com/api/v1/chat''),
                                      (''method'', JStr ''POST''),
                                      (''postData'', JObj [(''text'', JStr ''{"x":1}'')])]),
                   (''response'', JObj [(''status'', JInt 200)]),
                   (''startedDateTime'', JStr ''t1'')],
             JObj [(''request'', JObj [(''url'', JStr ''https://fonts.googleapis.com/x.css''),
                                      (''method'', JStr ''GET'')]),
                   (''response'', JObj [(''status'', JInt 200)]),
                   (''startedDateTime'', JStr ''t2'')]])])]) = Inr report \<and>
      length (entries report) = 1 \<and>
      total_entries (summary report) = 1 \<and>
      original_entries (summary report) = 2 \<and>
      (case ratio_value 1 2 of (a, b) \<Rightarrow> 0 < b \<and> a = 50 * b) \<and>
      reduction_ratio (summary report) = ''50.0%''\<close>
proof -
  let ?doc = \<open>JObj [(''log'', JObj [(''entries'', JArr
            [JObj [(''request'', JObj [(''url'', JStr ''https://anthropic.com/api/v1/chat''),
                                      (''method'', JStr ''POST''),
                                      (''postData'', JObj [(''text'', JStr ''{"x":1}'')])]),
                   (''response'', JObj [(''status'', JInt 200)]),
                   (''startedDateTime'', JStr ''t1'')],
             JObj [(''request'', JObj [(''url'', JStr ''https://fonts.googleapis.com/x.css''),
                                      (''method'', JStr ''GET'')]),
                   (''response'', JObj [(''status'', JInt 200)]),
                   (''startedDateTime'', JStr ''t2'')]])])]\<close>
  obtain report where r: "build_cleaned_har sample_loads ?doc = Inr report"
    and s: "original_entries (summary report) = 2" "reduction_ratio (summary report) = ''50.0%''"
      "length (entries report) = 1"
    using example_report by simp
  have v: "case ratio_value 1 2 of (a, b) \<Rightarrow> 0 < b \<and> a = 50 * b" by code_simp
  from summary_counts_and_ratio_range [OF r]
  have "total_entries (summary report) = length (entries report)" by blast
  with s(3) have t: "total_entries (summary report) = 1" by simp
  show ?thesis
    using r s(3) t s(1) v s(2) by (intro exI [of _ report] conjI)
qed


subsection \<open>A document without entries\<close>

lemma ratio_text_zero: "ratio_text k 0 = Inl ZeroDivisionError"
  by (simp add: ratio_text_def)

text \<open>
  Claim C6, as the code has it. For every input document whose entries sequence is empty,
  the run ends with a fatal error and no output file is written: the division of line 114
  raises \<^verbatim>\<open>ZeroDivisionError\<close> while the summary is built, before the output file is
  opened, and the files are left as they were. The program has no guard for this case
  and no error of its own.
\<close>

theorem empty_input_aborts:
  assumes "readable w input_path = Some txt"
    and "loads txt = Inr har_data"
    and "field_at [''log'', ''entries''] har_data = Some (JArr [])"
  shows "clean_har_file loads encodable input_path output_path w = (Inl ZeroDivisionError, w)"
proof -
  from assms(3) obtain har_log where
    "py_getitem har_data ''log'' = Inr har_log" and
    "py_getitem har_log ''entries'' = Inr (JArr [])"
    by (auto simp: field_at_Cons split: sum.splits)
  then have "build_cleaned_har loads har_data = Inl ZeroDivisionError"
    by (simp add: build_cleaned_har_def ratio_text_zero)
  with assms(1,2) show ?thesis by (simp add: clean_har_file_def)
qed

text \<open>A capture file holding a document with no entries, and no file written before.\<close>

theorem empty_input_aborts_witness:
  \<open>clean_har_file sample_loads (\<lambda>report. True) ''capture.har'' ''cleaned.json''
     \<lparr>readable = [''capture.har'' \<mapsto> ''{"log": {"entries": []}}''],
       writable = (\<lambda>path. True), written = Map.empty\<rparr> =
   (Inl ZeroDivisionError,
     \<lparr>readable = [''capture.har'' \<mapsto> ''{"log": {"entries": []}}''],
       writable = (\<lambda>path. True), written = Map.empty\<rparr>) \<and>
   written \<lparr>readable = [''capture.har'' \<mapsto> ''{"log": {"entries": []}}''],
       writable = (\<lambda>path. True), written = Map.empty\<rparr> ''cleaned.json'' = None\<close>
proof -
  let ?w = \<open>\<lparr>readable = [''capture.har'' \<mapsto> ''{"log": {"entries": []}}''],
       writable = (\<lambda>path. True), written = Map.empty\<rparr>\<close>
  have a: \<open>readable ?w ''capture.har'' = Some ''{"log": {"entries": []}}''\<close> by simp
  have b: \<open>sample_loads ''{"log": {"entries": []}}'' =
             Inr (JObj [(''log'', JObj [(''entries'', JArr [])])])\<close>
    by (simp add: sample_loads_def)
  have c: "field_at [''log'', ''entries''] (JObj [(''log'', JObj [(''entries'', JArr [])])]) =
             Some (JArr [])"
    by simp
  from empty_input_aborts
         [where w = ?w and input_path = "''capture.har''" and loads = sample_loads
            and output_path = "''cleaned.json''" and encodable = "\<lambda>report. True",
          OF a b c]
  show ?thesis by simp
qed

text \<open>
  Claim C6 as stated fails in that the error is dedicated and explicitly guarded: the
  outcome of the run on the same file is the \<^verbatim>\<open>ZeroDivisionError\<close> of Python itself,
  raised by the arithmetic and caught nowhere.
\<close>

theorem empty_input_crashes_unguarded:
  \<open>fst (clean_har_file sample_loads (\<lambda>report. True) ''capture.har'' ''cleaned.json''
          \<lparr>readable = [''capture.har'' \<mapsto> ''{"log": {"entries": []}}''],
       writable = (\<lambda>path. True), written = Map.empty\<rparr>) = Inl ZeroDivisionError\<close>
  by (simp add: clean_har_file_def build_cleaned_har_def ratio_text_def sample_loads_def)

end
